theory Spec2Isabelle
  imports Main
begin

section \<open>Data model\<close>

text \<open>
  The entities of \<^verbatim>\<open>core/models.py\<close>, the request, and the outcome of a view.
  A view either returns a response or raises; a raised exception is a value
  (\<open>Inl\<close>), so that every path through a view is a branch of its model.
\<close>

text \<open>Modelled from the spec: \<^verbatim>\<open>core/models.py\<close> (Resource) is not among the
  sources; section 3 gives the fields \<open>id\<close>, \<open>title\<close>, \<open>content\<close>.\<close>

record resource =
  res_id :: nat
  res_title :: string
  res_content :: string

text \<open>Modelled from the spec: \<^verbatim>\<open>core/models.py\<close> (ForumPost), fields
  \<open>id\<close>, \<open>title\<close>, \<open>content\<close>.\<close>

record forum_post =
  fp_id :: nat
  fp_title :: string
  fp_content :: string

text \<open>\<^verbatim>\<open>request.user\<close>: the anonymous user, or the account the session is
  logged in as.\<close>

datatype user_ref = AnonymousUser | AuthUser nat

text \<open>Modelled from the spec: \<^verbatim>\<open>core/models.py\<close> (Comment): \<open>id\<close>, the owning
  post, the user and a content field. The user is a reference to the account of
  the User who wrote the comment (section 3): a comment has exactly one authoring
  User and cannot exist without one, so the field holds the id of an account and
  never the anonymous user.\<close>

record comment =
  com_id :: nat
  com_post :: nat
  com_user :: nat
  com_content :: string

record account =
  acc_id :: nat
  acc_username :: string
  acc_password :: string

text \<open>The store and the session of the requesting client.\<close>

record state =
  resources :: "resource list"
  forum_posts :: "forum_post list"
  comments :: "comment list"
  accounts :: "account list"
  session_user :: user_ref

datatype http_method = GET | POST | OtherMethod

type_synonym querydict = "(string \<times> string) list"

record request =
  req_method :: http_method
  req_GET :: querydict
  req_POST :: querydict

text \<open>The exceptions a view can let escape. \<open>ValueError\<close> is what assigning
  something that is not a User to a reference to User raises.\<close>

datatype exn = DoesNotExist | MultipleObjectsReturned | Http404 | ValueError

record form =
  form_bound :: bool
  form_data :: querydict
  form_errors :: "(string \<times> string) list"

datatype ctx_val =
    CResources "resource list"
  | CPosts "forum_post list"
  | CResource resource
  | CPost forum_post
  | CComments "comment list"
  | CForm form
  | CStr string

datatype response =
    Render string "(string \<times> ctx_val) list"
  | Redirect string "(string \<times> nat) list"

type_synonym outcome = "exn + response"

text \<open>What the framework sends for an outcome: a rendered page is 200, a redirect
  302, \<open>Http404\<close> becomes the 404 page, and any other exception that escapes a view
  is a server error.\<close>

fun http_status :: "outcome \<Rightarrow> nat" where
  "http_status (Inr (Render t c)) = 200"
| "http_status (Inr (Redirect n kw)) = 302"
| "http_status (Inl Http404) = 404"
| "http_status (Inl e) = 500"

section \<open>The collaborators the views call\<close>

subsection \<open>Query dictionaries\<close>

text \<open>\<^verbatim>\<open>QueryDict.get(key, default)\<close>: the last value given for the key, or the
  default.\<close>

definition qd_get :: "querydict \<Rightarrow> string \<Rightarrow> string \<Rightarrow> string" where
  "qd_get qd k d = (case map_of (rev qd) k of None \<Rightarrow> d | Some v \<Rightarrow> v)"

subsection \<open>The object manager\<close>

text \<open>\<^verbatim>\<open>Model.objects.get(id=i)\<close>: the one row with that id; it raises
  \<open>DoesNotExist\<close> when there is none and \<open>MultipleObjectsReturned\<close> when there are
  several.\<close>

definition objects_get :: "('a \<Rightarrow> nat) \<Rightarrow> 'a list \<Rightarrow> nat \<Rightarrow> exn + 'a" where
  "objects_get key rows i =
     (case filter (\<lambda>r. key r = i) rows of
        [] \<Rightarrow> Inl DoesNotExist
      | [r] \<Rightarrow> Inr r
      | _ \<Rightarrow> Inl MultipleObjectsReturned)"

text \<open>The id the store assigns to a new row: one more than the largest in use.\<close>

definition next_id :: "nat list \<Rightarrow> nat" where
  "next_id ids = Suc (fold max ids 0)"

text \<open>\<^verbatim>\<open>field__icontains\<close>: case-insensitive containment. Letters are folded
  over ASCII.\<close>

definition ascii_lower :: "char \<Rightarrow> char" where
  "ascii_lower c =
     (let n = (of_char c :: nat) in if 65 \<le> n \<and> n \<le> 90 then char_of (n + 32) else c)"

fun starts_with :: "string \<Rightarrow> string \<Rightarrow> bool" where
  "starts_with hay [] = True"
| "starts_with [] (n # ns) = False"
| "starts_with (h # hs) (n # ns) = (h = n \<and> starts_with hs ns)"

fun contains :: "string \<Rightarrow> string \<Rightarrow> bool" where
  "contains [] needle = (needle = [])"
| "contains (h # hs) needle = (starts_with (h # hs) needle \<or> contains hs needle)"

definition icontains :: "string \<Rightarrow> string \<Rightarrow> bool" where
  "icontains hay needle = contains (map ascii_lower hay) (map ascii_lower needle)"


subsection \<open>Forms\<close>

text \<open>Modelled from the spec: \<^verbatim>\<open>core/forms.py\<close> is not among the sources. A
  form bound to submitted data is valid when each of its required fields is
  non-empty (section 4.3); every empty field gets an error of its own. An unbound
  form has no errors and is not valid.\<close>

definition required_errors :: "string list \<Rightarrow> querydict \<Rightarrow> (string \<times> string) list" where
  "required_errors names d =
     map (\<lambda>f. (f, ''This field is required.'')) (filter (\<lambda>f. qd_get d f [] = []) names)"

definition bound_form :: "string list \<Rightarrow> querydict \<Rightarrow> form" where
  "bound_form names d =
     \<lparr>form_bound = True, form_data = d, form_errors = required_errors names d\<rparr>"

definition unbound_form :: form where
  "unbound_form = \<lparr>form_bound = False, form_data = [], form_errors = []\<rparr>"

definition is_valid :: "form \<Rightarrow> bool" where
  "is_valid f = (form_bound f \<and> form_errors f = [])"

definition cleaned_data :: "form \<Rightarrow> string \<Rightarrow> string" where
  "cleaned_data f k = qd_get (form_data f) k []"

definition ResourceForm :: "querydict \<Rightarrow> form" where
  "ResourceForm d = bound_form [''title'', ''content''] d"

definition ForumPostForm :: "querydict \<Rightarrow> form" where
  "ForumPostForm d = bound_form [''title'', ''content''] d"

definition CommentForm :: "querydict \<Rightarrow> form" where
  "CommentForm d = bound_form [''content''] d"

definition LoginForm :: "querydict \<Rightarrow> form" where
  "LoginForm d = bound_form [''username'', ''password''] d"

definition SearchForm :: "querydict \<Rightarrow> form" where
  "SearchForm d = bound_form [''query''] d"

text \<open>The sign-up form also refuses a username that is taken (section 4.5).\<close>

definition SignUpForm :: "state \<Rightarrow> querydict \<Rightarrow> form" where
  "SignUpForm st d =
     \<lparr>form_bound = True, form_data = d,
      form_errors = required_errors [''username'', ''password''] d @
        (if qd_get d ''username'' [] \<in> set (map acc_username (accounts st))
         then [(''username'', ''A user with that username already exists.'')] else [])\<rparr>"

text \<open>\<^verbatim>\<open>form.save()\<close> of a model form: one new row from the cleaned data.\<close>

definition ResourceForm_save :: "state \<Rightarrow> form \<Rightarrow> state" where
  "ResourceForm_save st f =
     st\<lparr>resources := resources st @
        [\<lparr>res_id = next_id (map res_id (resources st)),
          res_title = cleaned_data f ''title'',
          res_content = cleaned_data f ''content''\<rparr>]\<rparr>"

definition ForumPostForm_save :: "state \<Rightarrow> form \<Rightarrow> state" where
  "ForumPostForm_save st f =
     st\<lparr>forum_posts := forum_posts st @
        [\<lparr>fp_id = next_id (map fp_id (forum_posts st)),
          fp_title = cleaned_data f ''title'',
          fp_content = cleaned_data f ''content''\<rparr>]\<rparr>"

definition SignUpForm_save :: "state \<Rightarrow> form \<Rightarrow> state" where
  "SignUpForm_save st f =
     st\<lparr>accounts := accounts st @
        [\<lparr>acc_id = next_id (map acc_id (accounts st)),
          acc_username = cleaned_data f ''username'',
          acc_password = cleaned_data f ''password''\<rparr>]\<rparr>"

subsection \<open>Authentication\<close>

text \<open>\<^verbatim>\<open>authenticate\<close> gives the account with that username when the password
  is its password, and nothing otherwise; \<^verbatim>\<open>login\<close> and \<^verbatim>\<open>logout\<close> set the
  session.\<close>

definition authenticate :: "state \<Rightarrow> string \<Rightarrow> string \<Rightarrow> account option" where
  "authenticate st u p =
     (case find (\<lambda>a. acc_username a = u) (accounts st) of
        None \<Rightarrow> None
      | Some a \<Rightarrow> if acc_password a = p then Some a else None)"

definition login :: "state \<Rightarrow> account \<Rightarrow> state" where
  "login st a = st\<lparr>session_user := AuthUser (acc_id a)\<rparr>"

definition logout :: "state \<Rightarrow> state" where
  "logout st = st\<lparr>session_user := AnonymousUser\<rparr>"

section \<open>The views of \<^verbatim>\<open>core/views.py\<close>\<close>

text \<open>Each view takes the state and the request and gives its outcome and the
  state it leaves. A name defined twice in the module has one definition per
  \<^verbatim>\<open>def\<close>; the textually identical repeats of \<open>signup\<close>, \<open>login_view\<close> and
  \<open>logout_view\<close> share one.\<close>

definition home :: "state \<Rightarrow> request \<Rightarrow> outcome \<times> state" where
  "home st req =
     (Inr (Render ''home.html''
        [(''resources'', CResources (resources st)),
         (''forum_posts'', CPosts (forum_posts st))]), st)"

definition resource_detail :: "state \<Rightarrow> request \<Rightarrow> nat \<Rightarrow> outcome \<times> state" where
  "resource_detail st req resource_id =
     (case objects_get res_id (resources st) resource_id of
        Inl e \<Rightarrow> (Inl e, st)
      | Inr r \<Rightarrow> (Inr (Render ''resource_detail.html'' [(''resource'', CResource r)]), st))"

text \<open>Lines 20 to 22: the first \<^verbatim>\<open>def forum_post_detail\<close>.\<close>

definition forum_post_detail_first :: "state \<Rightarrow> request \<Rightarrow> nat \<Rightarrow> outcome \<times> state" where
  "forum_post_detail_first st req post_id =
     (case objects_get fp_id (forum_posts st) post_id of
        Inl e \<Rightarrow> (Inl e, st)
      | Inr p \<Rightarrow> (Inr (Render ''forum_post_detail.html'' [(''post'', CPost p)]), st))"

definition submit_resource :: "state \<Rightarrow> request \<Rightarrow> outcome \<times> state" where
  "submit_resource st req =
     (if req_method req = POST then
        (let f = ResourceForm (req_POST req) in
         if is_valid f then (Inr (Redirect ''home'' []), ResourceForm_save st f)
         else (Inr (Render ''submit_resource.html'' [(''form'', CForm f)]), st))
      else (Inr (Render ''submit_resource.html'' [(''form'', CForm unbound_form)]), st))"

definition submit_forum_post :: "state \<Rightarrow> request \<Rightarrow> outcome \<times> state" where
  "submit_forum_post st req =
     (if req_method req = POST then
        (let f = ForumPostForm (req_POST req) in
         if is_valid f then (Inr (Redirect ''home'' []), ForumPostForm_save st f)
         else (Inr (Render ''submit_forum_post.html'' [(''form'', CForm f)]), st))
      else (Inr (Render ''submit_forum_post.html'' [(''form'', CForm unbound_form)]), st))"

text \<open>Lines 46 to 64: the second \<^verbatim>\<open>def forum_post_detail\<close>. Line 53 assigns
  \<^verbatim>\<open>request.user\<close> to the user of the new comment. For a logged-in requester that
  is the account; for the anonymous user the assignment raises \<open>ValueError\<close>, before
  the save of line 55, so nothing is stored.\<close>

definition forum_post_detail :: "state \<Rightarrow> request \<Rightarrow> nat \<Rightarrow> outcome \<times> state" where
  "forum_post_detail st req post_id =
     (case objects_get fp_id (forum_posts st) post_id of
        Inl e \<Rightarrow> (Inl e, st)
      | Inr p \<Rightarrow>
          (let cs = filter (\<lambda>c. com_post c = fp_id p) (comments st) in
           if req_method req = POST then
             (let cf = CommentForm (req_POST req) in
              if is_valid cf then
                (case session_user st of
                   AnonymousUser \<Rightarrow> (Inl ValueError, st)
                 | AuthUser u \<Rightarrow>
                     (let new_comment =
                        \<lparr>com_id = next_id (map com_id (comments st)),
                         com_post = fp_id p,
                         com_user = u,
                         com_content = cleaned_data cf ''content''\<rparr>
                      in (Inr (Redirect ''forum_post_detail'' [(''post_id'', fp_id p)]),
                          st\<lparr>comments := comments st @ [new_comment]\<rparr>)))
              else
                (Inr (Render ''forum_post_detail.html''
                   [(''post'', CPost p), (''comments'', CComments cs),
                    (''comment_form'', CForm cf)]), st))
           else
             (Inr (Render ''forum_post_detail.html''
                [(''post'', CPost p), (''comments'', CComments cs),
                 (''comment_form'', CForm unbound_form)]), st)))"

definition signup :: "state \<Rightarrow> request \<Rightarrow> outcome \<times> state" where
  "signup st req =
     (if req_method req = POST then
        (let f = SignUpForm st (req_POST req) in
         if is_valid f then (Inr (Redirect ''login'' []), SignUpForm_save st f)
         else (Inr (Render ''signup.html'' [(''form'', CForm f)]), st))
      else (Inr (Render ''signup.html'' [(''form'', CForm unbound_form)]), st))"

text \<open>Lines 76 to 90: the first \<^verbatim>\<open>def search\<close>, through \<open>SearchForm\<close>, on title or
  content.\<close>

definition search_first :: "state \<Rightarrow> request \<Rightarrow> outcome \<times> state" where
  "search_first st req =
     (let f = SearchForm (req_GET req) in
      if is_valid f then
        (let query = cleaned_data f ''query'' in
         (Inr (Render ''search_results.html''
            [(''form'', CForm f),
             (''resources'', CResources
                (filter (\<lambda>r. icontains (res_title r) query \<or> icontains (res_content r) query)
                   (resources st))),
             (''forum_posts'', CPosts
                (filter (\<lambda>p. icontains (fp_title p) query \<or> icontains (fp_content p) query)
                   (forum_posts st)))]), st))
      else
        (Inr (Render ''search_results.html''
           [(''form'', CForm f), (''resources'', CResources []),
            (''forum_posts'', CPosts [])]), st))"

definition login_view :: "state \<Rightarrow> request \<Rightarrow> outcome \<times> state" where
  "login_view st req =
     (if req_method req = POST then
        (let f = LoginForm (req_POST req) in
         if is_valid f then
           (case authenticate st (cleaned_data f ''username'') (cleaned_data f ''password'') of
              Some u \<Rightarrow> (Inr (Redirect ''home'' []), login st u)
            | None \<Rightarrow> (Inr (Render ''login.html'' [(''form'', CForm f)]), st))
         else (Inr (Render ''login.html'' [(''form'', CForm f)]), st))
      else (Inr (Render ''login.html'' [(''form'', CForm unbound_form)]), st))"

definition logout_view :: "state \<Rightarrow> request \<Rightarrow> outcome \<times> state" where
  "logout_view st req = (Inr (Redirect ''home'' []), logout st)"

text \<open>Lines 160 to 164: the second \<^verbatim>\<open>def search\<close>, on the raw parameter \<open>q\<close> and
  the title only.\<close>

definition search :: "state \<Rightarrow> request \<Rightarrow> outcome \<times> state" where
  "search st req =
     (let query = qd_get (req_GET req) ''q'' [] in
      (Inr (Render ''search_results.html''
         [(''resources'', CResources (filter (\<lambda>r. icontains (res_title r) query) (resources st))),
          (''forum_posts'', CPosts (filter (\<lambda>p. icontains (fp_title p) query) (forum_posts st))),
          (''query'', CStr query)]), st))"

section \<open>The module namespace of \<^verbatim>\<open>core/views.py\<close>\<close>

text \<open>Every \<^verbatim>\<open>def\<close> statement of the module, in source order. Executing the module
  binds each name to its function in turn, so a later \<^verbatim>\<open>def\<close> of a name replaces
  the earlier binding.\<close>

datatype view_fn =
    Def_home
  | Def_resource_detail
  | Def_forum_post_detail_1
  | Def_submit_resource
  | Def_submit_forum_post
  | Def_forum_post_detail_2
  | Def_signup_1
  | Def_search_1
  | Def_signup_2
  | Def_login_view_1
  | Def_logout_view_1
  | Def_signup_3
  | Def_login_view_2
  | Def_logout_view_2
  | Def_search_2

definition views_defs :: "(string \<times> view_fn) list" where
  "views_defs =
     [(''home'', Def_home),
      (''resource_detail'', Def_resource_detail),
      (''forum_post_detail'', Def_forum_post_detail_1),
      (''submit_resource'', Def_submit_resource),
      (''submit_forum_post'', Def_submit_forum_post),
      (''forum_post_detail'', Def_forum_post_detail_2),
      (''signup'', Def_signup_1),
      (''search'', Def_search_1),
      (''signup'', Def_signup_2),
      (''login_view'', Def_login_view_1),
      (''logout_view'', Def_logout_view_1),
      (''signup'', Def_signup_3),
      (''login_view'', Def_login_view_2),
      (''logout_view'', Def_logout_view_2),
      (''search'', Def_search_2)]"

definition exec_defs :: "(string \<times> 'f) list \<Rightarrow> (string \<rightharpoonup> 'f)" where
  "exec_defs ds = fold (\<lambda>(n, f) ns. ns(n \<mapsto> f)) ds Map.empty"

text \<open>\<^verbatim>\<open>views.name\<close>: the attribute of the imported module.\<close>

definition views_attr :: "string \<rightharpoonup> view_fn" where
  "views_attr = exec_defs views_defs"

text \<open>Calling a view function with the keyword arguments the resolver captured; a
  call whose arguments do not fit the signature raises \<open>TypeError\<close>.\<close>

datatype call_error = TypeError

type_synonym kwargs = "(string \<times> nat) list"

definition call0 ::
  "(state \<Rightarrow> request \<Rightarrow> outcome \<times> state) \<Rightarrow> kwargs \<Rightarrow> state \<Rightarrow> request \<Rightarrow>
   call_error + outcome \<times> state" where
  "call0 f kw st req = (if kw = [] then Inr (f st req) else Inl TypeError)"

definition call1 ::
  "(state \<Rightarrow> request \<Rightarrow> nat \<Rightarrow> outcome \<times> state) \<Rightarrow> string \<Rightarrow> kwargs \<Rightarrow> state \<Rightarrow> request \<Rightarrow>
   call_error + outcome \<times> state" where
  "call1 f name kw st req =
     (case kw of
        [(k, v)] \<Rightarrow> if k = name then Inr (f st req v) else Inl TypeError
      | _ \<Rightarrow> Inl TypeError)"

fun run_view_fn ::
  "view_fn \<Rightarrow> kwargs \<Rightarrow> state \<Rightarrow> request \<Rightarrow> call_error + outcome \<times> state" where
  "run_view_fn Def_home = call0 home"
| "run_view_fn Def_resource_detail = call1 resource_detail ''resource_id''"
| "run_view_fn Def_forum_post_detail_1 = call1 forum_post_detail_first ''post_id''"
| "run_view_fn Def_submit_resource = call0 submit_resource"
| "run_view_fn Def_submit_forum_post = call0 submit_forum_post"
| "run_view_fn Def_forum_post_detail_2 = call1 forum_post_detail ''post_id''"
| "run_view_fn Def_signup_1 = call0 signup"
| "run_view_fn Def_search_1 = call0 search_first"
| "run_view_fn Def_signup_2 = call0 signup"
| "run_view_fn Def_login_view_1 = call0 login_view"
| "run_view_fn Def_logout_view_1 = call0 logout_view"
| "run_view_fn Def_signup_3 = call0 signup"
| "run_view_fn Def_login_view_2 = call0 login_view"
| "run_view_fn Def_logout_view_2 = call0 logout_view"
| "run_view_fn Def_search_2 = call0 search"

section \<open>The URL configuration\<close>

text \<open>A route of \<^verbatim>\<open>path()\<close> is literal text with \<^verbatim>\<open><int:name>\<close> converters; it
  matches a whole path. An \<open>int\<close> converter takes a non-empty run of digits.\<close>

datatype route_part = Lit string | IntConv string

type_synonym route = "route_part list"

definition is_digit :: "char \<Rightarrow> bool" where
  "is_digit c = (48 \<le> (of_char c :: nat) \<and> (of_char c :: nat) \<le> 57)"

definition digits_to_nat :: "string \<Rightarrow> nat" where
  "digits_to_nat ds = fold (\<lambda>c n. 10 * n + ((of_char c :: nat) - 48)) ds 0"

fun match_route :: "route \<Rightarrow> string \<Rightarrow> kwargs option" where
  "match_route [] p = (if p = [] then Some [] else None)"
| "match_route (Lit s # ps) p =
     (if starts_with p s then match_route ps (drop (length s) p) else None)"
| "match_route (IntConv name # ps) p =
     (let ds = takeWhile is_digit p in
      if ds = [] then None
      else (case match_route ps (dropWhile is_digit p) of
              None \<Rightarrow> None
            | Some kw \<Rightarrow> Some ((name, digits_to_nat ds) # kw)))"

text \<open>What a pattern can name as its view: an attribute of the views module, or
  one of the framework's class-based login and logout views (with the
  \<^verbatim>\<open>template_name\<close> given to \<^verbatim>\<open>as_view\<close>, if any).\<close>

datatype view_expr =
    ViewsAttr string
  | LoginView_as_view "string option"
  | LogoutView_as_view

datatype callable =
    ViewFn view_fn
  | AuthLoginView "string option"
  | AuthLogoutView
  | AdminSite

fun eval_view_expr :: "view_expr \<Rightarrow> callable option" where
  "eval_view_expr (ViewsAttr n) = map_option ViewFn (views_attr n)"
| "eval_view_expr (LoginView_as_view t) = Some (AuthLoginView t)"
| "eval_view_expr LogoutView_as_view = Some AuthLogoutView"

text \<open>\<^verbatim>\<open>core/urls.py\<close>, lines 8 to 23, in order.\<close>

definition core_urls :: "(route \<times> view_expr \<times> string) list" where
  "core_urls =
     [([], ViewsAttr ''home'', ''home''),
      ([Lit ''resource/'', IntConv ''resource_id'', Lit ''/''],
         ViewsAttr ''resource_detail'', ''resource_detail''),
      ([Lit ''forum/'', IntConv ''post_id'', Lit ''/''],
         ViewsAttr ''forum_post_detail'', ''forum_post_detail''),
      ([Lit ''submit/resource/''], ViewsAttr ''submit_resource'', ''submit_resource''),
      ([Lit ''submit/forum/''], ViewsAttr ''submit_forum_post'', ''submit_forum_post''),
      ([Lit ''login/''], LoginView_as_view None, ''login''),
      ([Lit ''logout/''], LogoutView_as_view, ''logout''),
      ([Lit ''login/''], LoginView_as_view (Some ''login.html''), ''login''),
      ([Lit ''search/''], ViewsAttr ''search'', ''search''),
      ([Lit ''signup/''], ViewsAttr ''signup'', ''signup''),
      ([Lit ''login/''], ViewsAttr ''login_view'', ''login''),
      ([Lit ''logout/''], ViewsAttr ''logout_view'', ''logout'')]"

text \<open>Importing the URL configuration evaluates every view expression; a missing
  attribute fails the import (\<open>None\<close>).\<close>

fun eval_urlconf ::
  "(route \<times> view_expr \<times> string) list \<Rightarrow> (route \<times> callable \<times> string) list option" where
  "eval_urlconf [] = Some []"
| "eval_urlconf ((r, v, n) # rest) =
     (case eval_view_expr v of
        None \<Rightarrow> None
      | Some c \<Rightarrow> (case eval_urlconf rest of None \<Rightarrow> None | Some ps \<Rightarrow> Some ((r, c, n) # ps)))"

definition urlpatterns :: "(route \<times> callable \<times> string) list option" where
  "urlpatterns = eval_urlconf core_urls"

text \<open>The resolver tries the patterns from the top and takes the first that
  matches.\<close>

fun resolve_patterns ::
  "(route \<times> callable \<times> string) list \<Rightarrow> string \<Rightarrow> (callable \<times> kwargs) option" where
  "resolve_patterns [] p = None"
| "resolve_patterns ((r, c, n) # rest) p =
     (case match_route r p of
        Some kw \<Rightarrow> Some (c, kw)
      | None \<Rightarrow> resolve_patterns rest p)"

text \<open>\<^verbatim>\<open>teenpregnancy/urls.py\<close>: everything under \<^verbatim>\<open>admin/\<close> goes to the admin site,
  every other path to the patterns of the core application. The path is the
  request path without its leading slash.\<close>

definition resolve :: "string \<Rightarrow> (callable \<times> kwargs) option" where
  "resolve p =
     (if starts_with p ''admin/'' then Some (AdminSite, [])
      else (case urlpatterns of None \<Rightarrow> None | Some ps \<Rightarrow> resolve_patterns ps p))"

text \<open>Serving a request: no route, a view of the framework (outside this model), or
  a view function of the module, run.\<close>

datatype served =
    NoRoute
  | Framework callable
  | Ran "call_error + outcome \<times> state"

definition serve :: "string \<Rightarrow> state \<Rightarrow> request \<Rightarrow> served" where
  "serve p st req =
     (case resolve p of
        None \<Rightarrow> NoRoute
      | Some (ViewFn f, kw) \<Rightarrow> Ran (run_view_fn f kw st req)
      | Some (c, kw) \<Rightarrow> Framework c)"

section \<open>Notions the properties are stated with\<close>

text \<open>The table with only the first registration of every route: what is left
  when each later registration of a route already seen is struck out.\<close>

fun first_registrations ::
  "route list \<Rightarrow> (route \<times> callable \<times> string) list \<Rightarrow> (route \<times> callable \<times> string) list" where
  "first_registrations seen [] = []"
| "first_registrations seen ((r, c, n) # rest) =
     (if r \<in> set seen then first_registrations seen rest
      else (r, c, n) # first_registrations (r # seen) rest)"



text \<open>A small store, with nobody logged in, and requests to try the views on.\<close>

definition ex_state :: state where
  "ex_state =
     \<lparr>resources = [\<lparr>res_id = 1, res_title = ''Nutrition Guide'', res_content = ''Eat well''\<rparr>],
      forum_posts = [\<lparr>fp_id = 1, fp_title = ''Morning sickness'', fp_content = ''Any tips?''\<rparr>],
      comments = [],
      accounts = [\<lparr>acc_id = 1, acc_username = ''alice'', acc_password = ''secret''\<rparr>],
      session_user = AnonymousUser\<rparr>"

text \<open>The same store with alice logged in.\<close>

definition ex_state_alice :: state where
  "ex_state_alice = ex_state\<lparr>session_user := AuthUser 1\<rparr>"

definition get_request :: "querydict \<Rightarrow> request" where
  "get_request q = \<lparr>req_method = GET, req_GET = q, req_POST = []\<rparr>"

definition post_request :: "querydict \<Rightarrow> request" where
  "post_request d = \<lparr>req_method = POST, req_GET = [], req_POST = d\<rparr>"

section \<open>Properties\<close>

subsection \<open>The collaborators\<close>


lemma contains_Nil: "contains hay []"
  by (cases hay) simp_all



lemma fold_max_ge: "m \<le> fold max ids (m::nat)"
  by (induction ids arbitrary: m) (auto intro: order_trans[OF max.cobounded2])

lemma fold_max_upper: "i \<in> set ids \<Longrightarrow> i \<le> fold max ids (m::nat)"
proof (induction ids arbitrary: m)
  case Nil
  then show ?case by simp
next
  case (Cons a ids)
  show ?case
  proof (cases "i = a")
    case True
    have "a \<le> max a m" by simp
    also have "\<dots> \<le> fold max ids (max a m)" by (rule fold_max_ge)
    finally show ?thesis using True by simp
  next
    case False
    with Cons show ?thesis by simp
  qed
qed

lemma next_id_fresh: "next_id ids \<notin> set ids"
proof
  assume "next_id ids \<in> set ids"
  then have "next_id ids \<le> fold max ids 0" by (rule fold_max_upper)
  then show False by (simp add: next_id_def)
qed

lemma objects_get_Inr: "objects_get key rows i = Inr r \<Longrightarrow> key r = i \<and> r \<in> set rows"
proof -
  assume a: "objects_get key rows i = Inr r"
  then have "filter (\<lambda>x. key x = i) rows = [r]"
    by (auto simp: objects_get_def split: list.splits)
  then have "r \<in> set (filter (\<lambda>x. key x = i) rows)" by simp
  then show ?thesis by simp
qed

lemma objects_get_absent:
  "i \<notin> set (map key rows) \<Longrightarrow> objects_get key rows i = Inl DoesNotExist"
proof -
  assume "i \<notin> set (map key rows)"
  then have "filter (\<lambda>r. key r = i) rows = []" by (auto simp: filter_empty_conv)
  then show ?thesis by (simp add: objects_get_def)
qed

lemma filter_key_distinct:
  "distinct (map key rows) \<Longrightarrow> r \<in> set rows \<Longrightarrow> filter (\<lambda>x. key x = key r) rows = [r]"
proof (induction rows)
  case Nil
  then show ?case by simp
next
  case (Cons a rows)
  show ?case
  proof (cases "a = r")
    case True
    with Cons.prems have "key r \<notin> key ` set rows" by simp
    then have "filter (\<lambda>x. key x = key r) rows = []"
      by (auto simp: filter_empty_conv image_iff)
    with True show ?thesis by simp
  next
    case False
    with Cons.prems have r: "r \<in> set rows" and d: "distinct (map key rows)" by auto
    from Cons.prems r have "key a \<noteq> key r" by auto
    with Cons.IH[OF d r] show ?thesis by simp
  qed
qed

lemma objects_get_present:
  "distinct (map key rows) \<Longrightarrow> r \<in> set rows \<Longrightarrow> objects_get key rows (key r) = Inr r"
  by (simp add: objects_get_def filter_key_distinct)

lemma is_valid_bound_form:
  "is_valid (bound_form names d) \<longleftrightarrow> list_all (\<lambda>f. qd_get d f [] \<noteq> []) names"
  by (auto simp: is_valid_def bound_form_def required_errors_def filter_empty_conv list_all_iff)

lemma errors_bound_form:
  "fst ` set (form_errors (bound_form names d)) = {f \<in> set names. qd_get d f [] = []}"
  by (auto simp: bound_form_def required_errors_def image_iff)


subsection \<open>Detail views\<close>

lemma resource_detail_present:
  "distinct (map res_id (resources st)) \<Longrightarrow> r \<in> set (resources st) \<Longrightarrow>
   resource_detail st req (res_id r) =
     (Inr (Render ''resource_detail.html'' [(''resource'', CResource r)]), st)"
  by (simp add: resource_detail_def objects_get_present)

lemma forum_post_detail_present:
  "distinct (map fp_id (forum_posts st)) \<Longrightarrow> p \<in> set (forum_posts st) \<Longrightarrow>
   req_method req = GET \<Longrightarrow>
   forum_post_detail st req (fp_id p) =
     (Inr (Render ''forum_post_detail.html''
        [(''post'', CPost p),
         (''comments'', CComments (filter (\<lambda>c. com_post c = fp_id p) (comments st))),
         (''comment_form'', CForm unbound_form)]), st)"
  by (simp add: forum_post_detail_def objects_get_present)

lemma resource_detail_absent:
  "i \<notin> set (map res_id (resources st)) \<Longrightarrow>
   resource_detail st req i = (Inl DoesNotExist, st)
   \<and> http_status (fst (resource_detail st req i)) = 500"
  by (simp add: resource_detail_def objects_get_absent)

lemma forum_post_detail_absent:
  "i \<notin> set (map fp_id (forum_posts st)) \<Longrightarrow>
   forum_post_detail st req i = (Inl DoesNotExist, st)
   \<and> http_status (fst (forum_post_detail st req i)) = 500"
  by (simp add: forum_post_detail_def objects_get_absent)

text \<open>
  C1. The claim: an id in the store gives its entity, an id not in the store gives
  a controlled NotFound response and never a server error. The views look the id
  up with \<^verbatim>\<open>objects.get\<close> and catch nothing (\<^verbatim>\<open>get_object_or_404\<close> is imported and
  never called): on the example store, which has no resource and no post with
  id 7, both views raise \<open>DoesNotExist\<close>, which the framework answers with
  status 500, not 404.
\<close>

theorem detail_missing_id_is_server_error:
  "resource_detail ex_state (get_request []) 7 = (Inl DoesNotExist, ex_state)
   \<and> http_status (fst (resource_detail ex_state (get_request []) 7)) = 500
   \<and> forum_post_detail ex_state (get_request []) 7 = (Inl DoesNotExist, ex_state)
   \<and> http_status (fst (forum_post_detail ex_state (get_request []) 7)) = 500"
  by (simp add: resource_detail_def forum_post_detail_def objects_get_def ex_state_def)

subsection \<open>Comments\<close>

lemma comment_post_valid:
  assumes "objects_get fp_id (forum_posts st) pid = Inr p"
    and "req_method req = POST"
    and "is_valid (CommentForm (req_POST req))"
    and "session_user st = AuthUser u"
  shows "forum_post_detail st req pid =
     (Inr (Redirect ''forum_post_detail'' [(''post_id'', pid)]),
      st\<lparr>comments := comments st @
         [\<lparr>com_id = next_id (map com_id (comments st)), com_post = pid,
           com_user = u,
           com_content = qd_get (req_POST req) ''content'' []\<rparr>]\<rparr>)"
proof -
  from assms(1) have "fp_id p = pid" by (simp add: objects_get_Inr)
  with assms show ?thesis
    by (simp add: forum_post_detail_def Let_def cleaned_data_def CommentForm_def bound_form_def)
qed

lemma comment_post_anonymous:
  assumes "objects_get fp_id (forum_posts st) pid = Inr p"
    and "req_method req = POST"
    and "is_valid (CommentForm (req_POST req))"
    and "session_user st = AnonymousUser"
  shows "forum_post_detail st req pid = (Inl ValueError, st)"
  using assms by (simp add: forum_post_detail_def Let_def)

lemma comment_post_invalid:
  assumes "objects_get fp_id (forum_posts st) pid = Inr p"
    and "req_method req = POST"
    and "\<not> is_valid (CommentForm (req_POST req))"
  shows "forum_post_detail st req pid =
     (Inr (Render ''forum_post_detail.html''
        [(''post'', CPost p),
         (''comments'', CComments (filter (\<lambda>c. com_post c = pid) (comments st))),
         (''comment_form'', CForm (CommentForm (req_POST req)))]), st)"
proof -
  from assms(1) have "fp_id p = pid" by (simp add: objects_get_Inr)
  with assms show ?thesis by (simp add: forum_post_detail_def Let_def)
qed

text \<open>
  C2. A valid comment form posted to \<open>forum_post_detail\<close> on a post that exists.
  When the requester is logged in as \<open>u\<close>, the store gains exactly one comment: it
  has a fresh id, belongs to that post and has \<open>u\<close> as its user, and nothing else
  changes. When the requester is not logged in, no comment is created: the
  assignment of line 53 raises \<open>ValueError\<close> and the store is left as it was.
\<close>

theorem comment_created_only_when_authenticated:
  assumes "objects_get fp_id (forum_posts st) pid = Inr p"
    and "req_method req = POST"
    and "is_valid (CommentForm (req_POST req))"
  shows "(case session_user st of
            AuthUser u \<Rightarrow>
              snd (forum_post_detail st req pid) =
                st\<lparr>comments := comments st @
                   [\<lparr>com_id = next_id (map com_id (comments st)), com_post = pid,
                     com_user = u,
                     com_content = qd_get (req_POST req) ''content'' []\<rparr>]\<rparr>
              \<and> length (comments (snd (forum_post_detail st req pid))) =
                  Suc (length (comments st))
              \<and> next_id (map com_id (comments st)) \<notin> set (map com_id (comments st))
          | AnonymousUser \<Rightarrow>
              forum_post_detail st req pid = (Inl ValueError, st)
              \<and> comments (snd (forum_post_detail st req pid)) = comments st)"
proof (cases "session_user st")
  case AnonymousUser
  with comment_post_anonymous [OF assms] show ?thesis by simp
next
  case (AuthUser u)
  from comment_post_valid [OF assms AuthUser] AuthUser
    next_id_fresh [of "map com_id (comments st)"]
  show ?thesis by simp
qed

theorem comment_created_only_when_authenticated_witness:
  "snd (forum_post_detail ex_state_alice (post_request [(''content'', ''hello'')]) 1) =
     ex_state_alice\<lparr>comments :=
       [\<lparr>com_id = 1, com_post = 1, com_user = 1, com_content = ''hello''\<rparr>]\<rparr>
   \<and> forum_post_detail ex_state (post_request [(''content'', ''hello'')]) 1 =
       (Inl ValueError, ex_state)
   \<and> comments (snd (forum_post_detail ex_state (post_request [(''content'', ''hello'')]) 1)) = []"
proof -
  let ?p = "\<lparr>fp_id = 1, fp_title = ''Morning sickness'', fp_content = ''Any tips?''\<rparr>"
  let ?req = "post_request [(''content'', ''hello'')]"
  have g: "objects_get fp_id (forum_posts ex_state) 1 = Inr ?p"
    by (simp add: objects_get_def ex_state_def)
  have ga: "objects_get fp_id (forum_posts ex_state_alice) 1 = Inr ?p"
    by (simp add: objects_get_def ex_state_def ex_state_alice_def)
  have m: "req_method ?req = POST"
    by (simp add: post_request_def)
  have v: "is_valid (CommentForm (req_POST ?req))"
    by (simp add: is_valid_def CommentForm_def bound_form_def required_errors_def qd_get_def
        post_request_def)
  have s: "session_user ex_state = AnonymousUser" "comments ex_state = []"
    by (simp_all add: ex_state_def)
  have sa: "session_user ex_state_alice = AuthUser 1" "comments ex_state_alice = []"
    by (simp_all add: ex_state_def ex_state_alice_def)
  have q: "qd_get (req_POST ?req) ''content'' [] = ''hello''"
    by (simp add: qd_get_def post_request_def)
  from comment_created_only_when_authenticated [OF ga m v]
  have first: "snd (forum_post_detail ex_state_alice ?req 1) =
     ex_state_alice\<lparr>comments :=
       [\<lparr>com_id = 1, com_post = 1, com_user = 1, com_content = ''hello''\<rparr>]\<rparr>"
    by (simp add: sa q next_id_def)
  from comment_created_only_when_authenticated [OF g m v]
  have second: "forum_post_detail ex_state ?req 1 = (Inl ValueError, ex_state)
     \<and> comments (snd (forum_post_detail ex_state ?req 1)) = comments ex_state"
    by (simp add: s)
  from first second s show ?thesis by simp
qed

text \<open>
  C6. A comment posted to the detail view of a post that exists. When the form
  validates and the comment is created (the requester is logged in, so that the
  assignment of line 53 succeeds), the view answers with a redirect to the detail
  view of the same post and renders nothing. When the form does not validate,
  whoever the requester is, the view does not redirect: it renders the detail
  page again, with the bound form (the submitted data and its errors) as the
  comment form, and leaves the store as it was.
\<close>

theorem comment_post_redirects_or_rerenders:
  assumes "objects_get fp_id (forum_posts st) pid = Inr p"
    and "req_method req = POST"
  shows "(if is_valid (CommentForm (req_POST req))
          then (case session_user st of
                  AuthUser u \<Rightarrow>
                    fst (forum_post_detail st req pid) =
                      Inr (Redirect ''forum_post_detail'' [(''post_id'', pid)])
                    \<and> length (comments (snd (forum_post_detail st req pid))) =
                        Suc (length (comments st))
                | AnonymousUser \<Rightarrow>
                    forum_post_detail st req pid = (Inl ValueError, st))
          else forum_post_detail st req pid =
                 (Inr (Render ''forum_post_detail.html''
                    [(''post'', CPost p),
                     (''comments'', CComments (filter (\<lambda>c. com_post c = pid) (comments st))),
                     (''comment_form'', CForm (CommentForm (req_POST req)))]), st)
               \<and> form_bound (CommentForm (req_POST req))
               \<and> form_data (CommentForm (req_POST req)) = req_POST req
               \<and> form_errors (CommentForm (req_POST req)) \<noteq> [])"
proof (cases "is_valid (CommentForm (req_POST req))")
  case True
  show ?thesis
  proof (cases "session_user st")
    case AnonymousUser
    with True comment_post_anonymous [OF assms True] show ?thesis by simp
  next
    case (AuthUser u)
    with True comment_post_valid [OF assms True AuthUser] show ?thesis by simp
  qed
next
  case False
  have "form_bound (CommentForm (req_POST req))
        \<and> form_data (CommentForm (req_POST req)) = req_POST req"
    by (simp add: CommentForm_def bound_form_def)
  moreover have "form_errors (CommentForm (req_POST req)) \<noteq> []"
    using False by (simp add: is_valid_def CommentForm_def bound_form_def)
  ultimately show ?thesis
    using False comment_post_invalid [OF assms False] by simp
qed

theorem comment_post_redirects_or_rerenders_witness:
  "fst (forum_post_detail ex_state_alice (post_request [(''content'', ''hello'')]) 1) =
     Inr (Redirect ''forum_post_detail'' [(''post_id'', 1)])
   \<and> forum_post_detail ex_state_alice (post_request [(''content'', [])]) 1 =
     (Inr (Render ''forum_post_detail.html''
        [(''post'', CPost \<lparr>fp_id = 1, fp_title = ''Morning sickness'', fp_content = ''Any tips?''\<rparr>),
         (''comments'', CComments []),
         (''comment_form'', CForm
            \<lparr>form_bound = True, form_data = [(''content'', [])],
             form_errors = [(''content'', ''This field is required.'')]\<rparr>)]), ex_state_alice)"
proof -
  let ?p = "\<lparr>fp_id = 1, fp_title = ''Morning sickness'', fp_content = ''Any tips?''\<rparr>"
  have g: "objects_get fp_id (forum_posts ex_state_alice) 1 = Inr ?p"
    by (simp add: objects_get_def ex_state_def ex_state_alice_def)
  have m: "req_method (post_request d) = POST" for d
    by (simp add: post_request_def)
  have v: "is_valid (CommentForm (req_POST (post_request [(''content'', ''hello'')])))"
    by (simp add: is_valid_def CommentForm_def bound_form_def required_errors_def qd_get_def
        post_request_def)
  have w: "\<not> is_valid (CommentForm (req_POST (post_request [(''content'', [])])))"
    by (simp add: is_valid_def CommentForm_def bound_form_def required_errors_def qd_get_def
        post_request_def)
  have c: "CommentForm (req_POST (post_request [(''content'', [])])) =
      \<lparr>form_bound = True, form_data = [(''content'', [])],
       form_errors = [(''content'', ''This field is required.'')]\<rparr>"
    by (simp add: CommentForm_def bound_form_def required_errors_def qd_get_def post_request_def)
  have e: "comments ex_state_alice = []" "session_user ex_state_alice = AuthUser 1"
    by (simp_all add: ex_state_def ex_state_alice_def)
  from comment_post_redirects_or_rerenders [OF g m, of "[(''content'', ''hello'')]"] v
  have first: "fst (forum_post_detail ex_state_alice (post_request [(''content'', ''hello'')]) 1) =
     Inr (Redirect ''forum_post_detail'' [(''post_id'', 1)])" by (simp add: e)
  from comment_post_redirects_or_rerenders [OF g m, of "[(''content'', [])]"] w
  have second: "forum_post_detail ex_state_alice (post_request [(''content'', [])]) 1 =
     (Inr (Render ''forum_post_detail.html''
        [(''post'', CPost ?p),
         (''comments'', CComments (filter (\<lambda>c. com_post c = 1) (comments ex_state_alice))),
         (''comment_form'', CForm (CommentForm (req_POST (post_request [(''content'', [])]))))]),
      ex_state_alice)" by simp
  from first second show ?thesis by (simp add: c e)
qed

subsection \<open>Search\<close>



text \<open>
  C10. With \<open>q\<close> absent from the query string, or given as the empty string, the
  search handler raises nothing: it renders the results page, and the page lists
  every resource and every forum post.
\<close>

theorem search_empty_query_matches_all:
  assumes "map_of (rev (req_GET req)) ''q'' = None \<or> map_of (rev (req_GET req)) ''q'' = Some []"
  shows "search st req =
     (Inr (Render ''search_results.html''
        [(''resources'', CResources (resources st)),
         (''forum_posts'', CPosts (forum_posts st)),
         (''query'', CStr [])]), st)"
  using assms by (auto simp: search_def qd_get_def icontains_def Let_def contains_Nil)

theorem search_empty_query_matches_all_witness:
  "search ex_state (get_request []) =
     (Inr (Render ''search_results.html''
        [(''resources'', CResources (resources ex_state)),
         (''forum_posts'', CPosts (forum_posts ex_state)),
         (''query'', CStr [])]), ex_state)
   \<and> search ex_state (get_request [(''q'', [])]) =
     (Inr (Render ''search_results.html''
        [(''resources'', CResources (resources ex_state)),
         (''forum_posts'', CPosts (forum_posts ex_state)),
         (''query'', CStr [])]), ex_state)"
proof -
  have a: "map_of (rev (req_GET (get_request []))) ''q'' = None
           \<or> map_of (rev (req_GET (get_request []))) ''q'' = Some []"
    by (simp add: get_request_def)
  have b: "map_of (rev (req_GET (get_request [(''q'', [])]))) ''q'' = None
           \<or> map_of (rev (req_GET (get_request [(''q'', [])]))) ''q'' = Some []"
    by (simp add: get_request_def)
  from search_empty_query_matches_all [OF a] search_empty_query_matches_all [OF b]
  show ?thesis by simp
qed

subsection \<open>Logging out\<close>

text \<open>
  C9. From any session state \<open>logout_view\<close> answers with the redirect to home and
  leaves the session anonymous, touching nothing else; it raises nothing, also
  when the session is anonymous already, and a second call leaves the state the
  first call left.
\<close>

theorem logout_view_idempotent:
  "logout_view st req = (Inr (Redirect ''home'' []), st\<lparr>session_user := AnonymousUser\<rparr>)
   \<and> http_status (fst (logout_view st req)) = 302
   \<and> session_user (snd (logout_view st req)) = AnonymousUser
   \<and> logout_view (st\<lparr>session_user := AnonymousUser\<rparr>) req =
       (Inr (Redirect ''home'' []), st\<lparr>session_user := AnonymousUser\<rparr>)
   \<and> logout_view (snd (logout_view st req)) req' = logout_view st req"
  by (simp add: logout_view_def logout_def)

subsection \<open>Submissions\<close>

lemma title_content_valid:
  "is_valid (bound_form [''title'', ''content''] d) \<longleftrightarrow>
   qd_get d ''title'' [] \<noteq> [] \<and> qd_get d ''content'' [] \<noteq> []"
  by (simp add: is_valid_bound_form)

lemma bound_form_invalid_errors:
  "\<not> is_valid (bound_form names d) \<Longrightarrow> form_errors (bound_form names d) \<noteq> []"
  by (simp add: is_valid_def bound_form_def)

text \<open>
  C5. A POST to \<open>submit_resource\<close> or \<open>submit_forum_post\<close>: when title and content
  are both non-empty (the form is valid), the store gains exactly one row, with a
  fresh id and the submitted title and content, nothing else changes, and the
  answer is the redirect to home; otherwise the store is left as it was and the
  submission page is rendered again with the bound form, which carries one error
  for each empty field.
\<close>

theorem submit_persists_one_or_rerenders:
  assumes "req_method req = POST"
    and "t = qd_get (req_POST req) ''title'' []"
    and "c = qd_get (req_POST req) ''content'' []"
  shows "is_valid (ResourceForm (req_POST req)) = (t \<noteq> [] \<and> c \<noteq> [])
   \<and> is_valid (ForumPostForm (req_POST req)) = (t \<noteq> [] \<and> c \<noteq> [])
   \<and> (if t \<noteq> [] \<and> c \<noteq> [] then
        submit_resource st req =
          (Inr (Redirect ''home'' []),
           st\<lparr>resources := resources st @
              [\<lparr>res_id = next_id (map res_id (resources st)),
                res_title = t, res_content = c\<rparr>]\<rparr>)
        \<and> next_id (map res_id (resources st)) \<notin> set (map res_id (resources st))
        \<and> submit_forum_post st req =
          (Inr (Redirect ''home'' []),
           st\<lparr>forum_posts := forum_posts st @
              [\<lparr>fp_id = next_id (map fp_id (forum_posts st)),
                fp_title = t, fp_content = c\<rparr>]\<rparr>)
        \<and> next_id (map fp_id (forum_posts st)) \<notin> set (map fp_id (forum_posts st))
      else
        submit_resource st req =
          (Inr (Render ''submit_resource.html''
             [(''form'', CForm (ResourceForm (req_POST req)))]), st)
        \<and> submit_forum_post st req =
          (Inr (Render ''submit_forum_post.html''
             [(''form'', CForm (ForumPostForm (req_POST req)))]), st)
        \<and> form_errors (ResourceForm (req_POST req)) \<noteq> []
        \<and> form_errors (ForumPostForm (req_POST req)) \<noteq> []
        \<and> fst ` set (form_errors (ResourceForm (req_POST req))) =
            {f \<in> {''title'', ''content''}. qd_get (req_POST req) f [] = []}
        \<and> fst ` set (form_errors (ForumPostForm (req_POST req))) =
            {f \<in> {''title'', ''content''}. qd_get (req_POST req) f [] = []})"
proof -
  let ?d = "req_POST req"
  have v: "is_valid (bound_form [''title'', ''content''] ?d) = (t \<noteq> [] \<and> c \<noteq> [])"
    using assms(2,3) by (simp add: title_content_valid)
  have cd: "cleaned_data (bound_form names ?d) k = qd_get ?d k []" for names k
    by (simp add: cleaned_data_def bound_form_def)
  have er: "fst ` set (form_errors (bound_form [''title'', ''content''] ?d)) =
            {f \<in> {''title'', ''content''}. qd_get ?d f [] = []}"
    using errors_bound_form [of "[''title'', ''content'']" ?d] by simp
  show ?thesis
  proof (cases "t \<noteq> [] \<and> c \<noteq> []")
    case True
    with v have ok: "is_valid (bound_form [''title'', ''content''] ?d)" by simp
    have r: "submit_resource st req =
          (Inr (Redirect ''home'' []),
           st\<lparr>resources := resources st @
              [\<lparr>res_id = next_id (map res_id (resources st)),
                res_title = t, res_content = c\<rparr>]\<rparr>)"
      using assms ok
      by (simp add: submit_resource_def ResourceForm_def ResourceForm_save_def Let_def cd)
    have f: "submit_forum_post st req =
          (Inr (Redirect ''home'' []),
           st\<lparr>forum_posts := forum_posts st @
              [\<lparr>fp_id = next_id (map fp_id (forum_posts st)),
                fp_title = t, fp_content = c\<rparr>]\<rparr>)"
      using assms ok
      by (simp add: submit_forum_post_def ForumPostForm_def ForumPostForm_save_def Let_def cd)
    from True v r f next_id_fresh [of "map res_id (resources st)"]
      next_id_fresh [of "map fp_id (forum_posts st)"]
    show ?thesis by (simp add: ResourceForm_def ForumPostForm_def)
  next
    case False
    with v have bad: "\<not> is_valid (bound_form [''title'', ''content''] ?d)" by simp
    have r: "submit_resource st req =
          (Inr (Render ''submit_resource.html''
             [(''form'', CForm (ResourceForm (req_POST req)))]), st)"
      using assms(1) bad by (simp add: submit_resource_def ResourceForm_def Let_def)
    have f: "submit_forum_post st req =
          (Inr (Render ''submit_forum_post.html''
             [(''form'', CForm (ForumPostForm (req_POST req)))]), st)"
      using assms(1) bad by (simp add: submit_forum_post_def ForumPostForm_def Let_def)
    have ne: "form_errors (bound_form [''title'', ''content''] ?d) \<noteq> []"
      using bad by (rule bound_form_invalid_errors)
    from False v r f ne er show ?thesis
      by (simp add: ResourceForm_def ForumPostForm_def)
  qed
qed

theorem submit_persists_one_or_rerenders_witness:
  "submit_resource ex_state (post_request [(''title'', ''Iron''), (''content'', ''Eat spinach'')]) =
     (Inr (Redirect ''home'' []),
      ex_state\<lparr>resources := resources ex_state @
         [\<lparr>res_id = 2, res_title = ''Iron'', res_content = ''Eat spinach''\<rparr>]\<rparr>)
   \<and> submit_forum_post ex_state (post_request [(''title'', ''Iron''), (''content'', [])]) =
     (Inr (Render ''submit_forum_post.html''
        [(''form'', CForm
           \<lparr>form_bound = True, form_data = [(''title'', ''Iron''), (''content'', [])],
            form_errors = [(''content'', ''This field is required.'')]\<rparr>)]), ex_state)"
proof -
  let ?good = "post_request [(''title'', ''Iron''), (''content'', ''Eat spinach'')]"
  let ?bad = "post_request [(''title'', ''Iron''), (''content'', [])]"
  have m: "req_method (post_request d) = POST" for d
    by (simp add: post_request_def)
  have g1: "''Iron'' = qd_get (req_POST ?good) ''title'' []"
    and g2: "''Eat spinach'' = qd_get (req_POST ?good) ''content'' []"
    and b1: "''Iron'' = qd_get (req_POST ?bad) ''title'' []"
    and b2: "[] = qd_get (req_POST ?bad) ''content'' []"
    by (simp_all add: qd_get_def post_request_def)
  have n: "next_id (map res_id (resources ex_state)) = 2"
    by (simp add: next_id_def ex_state_def)
  have fm: "ForumPostForm (req_POST ?bad) =
      \<lparr>form_bound = True, form_data = [(''title'', ''Iron''), (''content'', [])],
       form_errors = [(''content'', ''This field is required.'')]\<rparr>"
    by (simp add: ForumPostForm_def bound_form_def required_errors_def qd_get_def post_request_def)
  from submit_persists_one_or_rerenders [OF m g1 g2, of ex_state]
  have first: "submit_resource ex_state ?good =
     (Inr (Redirect ''home'' []),
      ex_state\<lparr>resources := resources ex_state @
         [\<lparr>res_id = 2, res_title = ''Iron'', res_content = ''Eat spinach''\<rparr>]\<rparr>)"
    by (simp add: n)
  from submit_persists_one_or_rerenders [OF m b1 b2, of ex_state]
  have second: "submit_forum_post ex_state ?bad =
     (Inr (Render ''submit_forum_post.html'' [(''form'', CForm (ForumPostForm (req_POST ?bad)))]),
      ex_state)"
    by simp
  from first second show ?thesis by (simp add: fm)
qed

subsection \<open>Logging in\<close>







subsection \<open>Names defined twice, routes registered twice\<close>

lemma exec_defs_snoc: "exec_defs (ds @ [(n, f)]) = (exec_defs ds)(n \<mapsto> f)"
  by (simp add: exec_defs_def)

lemma exec_defs_append_other:
  "n \<notin> fst ` set ds' \<Longrightarrow> exec_defs (ds @ ds') n = exec_defs ds n"
proof (induction ds' rule: rev_induct)
  case Nil
  then show ?case by simp
next
  case (snoc d ds')
  obtain m g where d: "d = (m, g)" by (cases d)
  from snoc.prems d have "m \<noteq> n" and "n \<notin> fst ` set ds'" by auto
  with snoc.IH have "exec_defs (ds @ ds') n = exec_defs ds n" by simp
  moreover have "exec_defs (ds @ ds' @ [d]) = (exec_defs (ds @ ds'))(m \<mapsto> g)"
    using exec_defs_snoc [of "ds @ ds'" m g] d by simp
  ultimately show ?case using \<open>m \<noteq> n\<close> by simp
qed

lemma exec_defs_last:
  "n \<notin> fst ` set ds' \<Longrightarrow> exec_defs (ds @ (n, f) # ds') n = Some f"
proof -
  assume a: "n \<notin> fst ` set ds'"
  have "exec_defs ((ds @ [(n, f)]) @ ds') n = exec_defs (ds @ [(n, f)]) n"
    using a by (rule exec_defs_append_other)
  then show ?thesis by (simp add: exec_defs_snoc)
qed

lemma urlpatterns_eq:
  "urlpatterns = Some
     [([], ViewFn Def_home, ''home''),
      ([Lit ''resource/'', IntConv ''resource_id'', Lit ''/''],
         ViewFn Def_resource_detail, ''resource_detail''),
      ([Lit ''forum/'', IntConv ''post_id'', Lit ''/''],
         ViewFn Def_forum_post_detail_2, ''forum_post_detail''),
      ([Lit ''submit/resource/''], ViewFn Def_submit_resource, ''submit_resource''),
      ([Lit ''submit/forum/''], ViewFn Def_submit_forum_post, ''submit_forum_post''),
      ([Lit ''login/''], AuthLoginView None, ''login''),
      ([Lit ''logout/''], AuthLogoutView, ''logout''),
      ([Lit ''login/''], AuthLoginView (Some ''login.html''), ''login''),
      ([Lit ''search/''], ViewFn Def_search_2, ''search''),
      ([Lit ''signup/''], ViewFn Def_signup_3, ''signup''),
      ([Lit ''login/''], ViewFn Def_login_view_2, ''login''),
      ([Lit ''logout/''], ViewFn Def_logout_view_2, ''logout'')]"
  by (simp add: urlpatterns_def core_urls_def views_attr_def exec_defs_def views_defs_def)

lemma first_registrations_resolve:
  "list_all (\<lambda>r. match_route r p = None) seen \<Longrightarrow>
   resolve_patterns (first_registrations seen ps) p = resolve_patterns ps p"
proof (induction seen ps rule: first_registrations.induct)
  case (1 seen)
  show ?case by simp
next
  case (2 seen r c n rest)
  show ?case
  proof (cases "r \<in> set seen")
    case True
    with "2.prems" have "match_route r p = None" by (simp add: list_all_iff)
    with True "2.IH"(1) "2.prems" show ?thesis by simp
  next
    case False
    show ?thesis
    proof (cases "match_route r p")
      case None
      with "2.prems" have "list_all (\<lambda>r. match_route r p = None) (r # seen)" by simp
      with False "2.IH"(2) None show ?thesis by simp
    next
      case (Some kw)
      with False show ?thesis by simp
    qed
  qed
qed

lemma resolve_forum:
  assumes "ds \<noteq> []" and "list_all is_digit ds"
  shows "resolve (''forum/'' @ ds @ ''/'') =
           Some (ViewFn Def_forum_post_detail_2, [(''post_id'', digits_to_nat ds)])"
proof -
  let ?p = "''forum/'' @ ds @ ''/''"
  have nd: "\<not> is_digit CHR ''/''" by (simp add: is_digit_def)
  have tw: "takeWhile is_digit (ds @ ''/'') = ds"
    using assms(2) nd by (simp add: list_all_iff)
  have dw: "dropWhile is_digit (ds @ ''/'') = ''/''"
    using assms(2) nd by (simp add: list_all_iff)
  have a: "starts_with ?p ''admin/'' = False" by simp
  have b: "match_route [] ?p = None" by simp
  have c: "match_route [Lit ''resource/'', IntConv ''resource_id'', Lit ''/''] ?p = None" by simp
  have d: "match_route [Lit ''forum/'', IntConv ''post_id'', Lit ''/''] ?p =
             Some [(''post_id'', digits_to_nat ds)]"
    using assms(1) by (simp add: tw dw Let_def)
  show ?thesis
    by (simp only: resolve_def urlpatterns_eq a b c d resolve_patterns.simps option.case if_False)
qed

lemma search_definitions_differ:
  "search_first ex_state (get_request [(''q'', ''nutrition'')]) \<noteq>
   search ex_state (get_request [(''q'', ''nutrition'')])"
  by (simp add: search_first_def search_def Let_def)

text \<open>
  C4. A name with several \<^verbatim>\<open>def\<close>s in the views module is bound to the last of
  them, and that is the function the routes dispatch to. For any list of
  definitions the last one of a name is the one the name is bound to; in
  \<^verbatim>\<open>views.py\<close>, \<open>search\<close> is the second definition (the raw parameter \<open>q\<close>,
  matched against titles only) and \<open>forum_post_detail\<close> is the second definition
  (comments and comment submission). A request to \<^verbatim>\<open>search/\<close> runs that
  \<open>search\<close>, a request to \<^verbatim>\<open>forum/<digits>/\<close> runs that \<open>forum_post_detail\<close>, and no
  path at all resolves to the first definition of either.
\<close>

theorem last_definition_is_dispatched:
  "(n \<notin> fst ` set later \<longrightarrow> exec_defs (earlier @ (n, f) # later) n = Some f)
   \<and> views_attr ''search'' = Some Def_search_2
   \<and> views_attr ''forum_post_detail'' = Some Def_forum_post_detail_2
   \<and> serve ''search/'' st req = Ran (Inr (search st req))
   \<and> (ds \<noteq> [] \<and> list_all is_digit ds \<longrightarrow>
        serve (''forum/'' @ ds @ ''/'') st req =
          Ran (Inr (forum_post_detail st req (digits_to_nat ds))))
   \<and> (\<forall>p. map_option fst (resolve p) \<notin>
         {Some (ViewFn Def_search_1), Some (ViewFn Def_forum_post_detail_1)})"
proof (intro conjI impI allI)
  assume "n \<notin> fst ` set later"
  then show "exec_defs (earlier @ (n, f) # later) n = Some f" by (rule exec_defs_last)
next
  show "views_attr ''search'' = Some Def_search_2"
    by (simp add: views_attr_def exec_defs_def views_defs_def)
next
  show "views_attr ''forum_post_detail'' = Some Def_forum_post_detail_2"
    by (simp add: views_attr_def exec_defs_def views_defs_def)
next
  have "resolve ''search/'' = Some (ViewFn Def_search_2, [])"
    by (simp add: resolve_def urlpatterns_eq)
  then show "serve ''search/'' st req = Ran (Inr (search st req))"
    by (simp add: serve_def call0_def)
next
  assume "ds \<noteq> [] \<and> list_all is_digit ds"
  then have "ds \<noteq> []" and "list_all is_digit ds" by blast+
  then have "resolve (''forum/'' @ ds @ ''/'') =
           Some (ViewFn Def_forum_post_detail_2, [(''post_id'', digits_to_nat ds)])"
    by (rule resolve_forum)
  then show "serve (''forum/'' @ ds @ ''/'') st req =
          Ran (Inr (forum_post_detail st req (digits_to_nat ds)))"
    by (simp only: serve_def option.case prod.case callable.case run_view_fn.simps)
       (simp add: call1_def)
next
  fix p
  show "map_option fst (resolve p) \<notin>
         {Some (ViewFn Def_search_1), Some (ViewFn Def_forum_post_detail_1)}"
    by (auto simp: resolve_def urlpatterns_eq simp del: match_route.simps split: option.splits)
qed

theorem last_definition_is_dispatched_witness:
  "exec_defs [(''search'', Def_search_1), (''search'', Def_search_2)] ''search'' = Some Def_search_2
   \<and> serve ''forum/12/'' ex_state (get_request []) =
       Ran (Inr (forum_post_detail ex_state (get_request []) 12))"
proof -
  have a: "''search'' \<notin> fst ` set ([] :: (string \<times> view_fn) list)" by simp
  have b: "''12'' \<noteq> [] \<and> list_all is_digit ''12''" by (simp add: is_digit_def)
  have c: "digits_to_nat ''12'' = 12" by (simp add: digits_to_nat_def)
  from last_definition_is_dispatched
    [of "''search''" "[]" "[(''search'', Def_search_1)]" Def_search_2 ex_state "get_request []" "''12''"]
    a b
  have "exec_defs ([(''search'', Def_search_1)] @ [(''search'', Def_search_2)]) ''search'' =
          Some Def_search_2
        \<and> serve (''forum/'' @ ''12'' @ ''/'') ex_state (get_request []) =
            Ran (Inr (forum_post_detail ex_state (get_request []) (digits_to_nat ''12'')))"
    by blast
  then show ?thesis by (simp add: c)
qed

text \<open>
  C7. The resolver takes the first pattern that matches, so a later registration
  of a route already registered is never reached: striking every such
  registration from a table changes the answer for no path. In
  \<^verbatim>\<open>core/urls.py\<close> \<^verbatim>\<open>login/\<close> is registered three times and \<^verbatim>\<open>logout/\<close> twice. A
  request to \<^verbatim>\<open>login/\<close> goes to the first registration (the framework's login
  view as registered on line 15), a request to \<^verbatim>\<open>logout/\<close> to the first (the
  framework's logout view of line 16), and no path resolves to the views of the
  later registrations: the login view with a template name of line 17,
  \<^verbatim>\<open>views.login_view\<close> of line 20 and \<^verbatim>\<open>views.logout_view\<close> of line 21.
\<close>

theorem first_registered_route_wins:
  "resolve_patterns (first_registrations [] ps) p = resolve_patterns ps p
   \<and> resolve ''login/'' = Some (AuthLoginView None, [])
   \<and> resolve ''logout/'' = Some (AuthLogoutView, [])
   \<and> serve ''login/'' st req = Framework (AuthLoginView None)
   \<and> serve ''logout/'' st req = Framework AuthLogoutView
   \<and> eval_view_expr (ViewsAttr ''login_view'') = Some (ViewFn Def_login_view_2)
   \<and> eval_view_expr (ViewsAttr ''logout_view'') = Some (ViewFn Def_logout_view_2)
   \<and> map_option (map (fst \<circ> snd) \<circ> first_registrations []) urlpatterns =
       Some [ViewFn Def_home, ViewFn Def_resource_detail, ViewFn Def_forum_post_detail_2,
             ViewFn Def_submit_resource, ViewFn Def_submit_forum_post,
             AuthLoginView None, AuthLogoutView, ViewFn Def_search_2, ViewFn Def_signup_3]
   \<and> (\<forall>q. map_option fst (resolve q) \<notin>
         {Some (AuthLoginView (Some ''login.html'')), Some (ViewFn Def_login_view_2),
          Some (ViewFn Def_logout_view_2)})"
proof (intro conjI allI)
  show "resolve_patterns (first_registrations [] ps) p = resolve_patterns ps p"
    by (rule first_registrations_resolve) simp
next
  show li: "resolve ''login/'' = Some (AuthLoginView None, [])"
    by (simp add: resolve_def urlpatterns_eq)
  show lo: "resolve ''logout/'' = Some (AuthLogoutView, [])"
    by (simp add: resolve_def urlpatterns_eq)
  show "serve ''login/'' st req = Framework (AuthLoginView None)"
    by (simp add: serve_def li)
  show "serve ''logout/'' st req = Framework AuthLogoutView"
    by (simp add: serve_def lo)
next
  show "eval_view_expr (ViewsAttr ''login_view'') = Some (ViewFn Def_login_view_2)"
    by (simp add: views_attr_def exec_defs_def views_defs_def)
next
  show "eval_view_expr (ViewsAttr ''logout_view'') = Some (ViewFn Def_logout_view_2)"
    by (simp add: views_attr_def exec_defs_def views_defs_def)
next
  show "map_option (map (fst \<circ> snd) \<circ> first_registrations []) urlpatterns =
       Some [ViewFn Def_home, ViewFn Def_resource_detail, ViewFn Def_forum_post_detail_2,
             ViewFn Def_submit_resource, ViewFn Def_submit_forum_post,
             AuthLoginView None, AuthLogoutView, ViewFn Def_search_2, ViewFn Def_signup_3]"
    by (simp add: urlpatterns_eq)
next
  fix q
  show "map_option fst (resolve q) \<notin>
         {Some (AuthLoginView (Some ''login.html'')), Some (ViewFn Def_login_view_2),
          Some (ViewFn Def_logout_view_2)}"
    by (auto simp: resolve_def urlpatterns_eq simp del: match_route.simps split: option.splits)
qed

end
